theory Spec2Isabelle
  imports Complex_Main "HOL-Library.Log_Nat" "HOL-Library.Word"
begin

section \<open>Argon One Pi controller: the three workers and their supervisor\<close>

text \<open>
  The program is \<^verbatim>\<open>main.go\<close>: a temperature poller (\<^verbatim>\<open>monitorTemperature\<close>), a fan
  controller (\<^verbatim>\<open>handleTemperature\<close>), a shutdown-button watcher
  (\<^verbatim>\<open>watchShutdownButton\<close>) and the supervisor (\<^verbatim>\<open>Manage\<close>, \<^verbatim>\<open>main\<close>).
  Each goroutine is embedded as a function from a script of what its environment answers
  (the outcome of every \<^verbatim>\<open>select\<close>, sensor read, pin read and command run, in the order
  the goroutine asks) to the trace of what it does. Sleeping and the blocking of channel
  sends are not part of the traces.
\<close>

subsection \<open>float64\<close>

text \<open>
  A \<^verbatim>\<open>float64\<close> is a NaN, an infinity or a finite value, kept as the rational it denotes
  (the two zeros are identified: no comparison of the program tells them apart).
\<close>

datatype float64 = NaN | NegInf | PosInf | Fin rat

text \<open>Go's \<^verbatim>\<open><\<close> and \<^verbatim>\<open><=\<close> on float64: every comparison with a NaN is false.\<close>

fun f64_less :: "float64 \<Rightarrow> float64 \<Rightarrow> bool" where
  "f64_less NaN _ = False"
| "f64_less _ NaN = False"
| "f64_less (Fin x) (Fin y) = (x < y)"
| "f64_less NegInf NegInf = False"
| "f64_less NegInf _ = True"
| "f64_less PosInf _ = False"
| "f64_less (Fin x) PosInf = True"
| "f64_less (Fin x) NegInf = False"

fun f64_le :: "float64 \<Rightarrow> float64 \<Rightarrow> bool" where
  "f64_le NaN _ = False"
| "f64_le _ NaN = False"
| "f64_le (Fin x) (Fin y) = (x \<le> y)"
| "f64_le NegInf _ = True"
| "f64_le _ PosInf = True"
| "f64_le PosInf _ = False"
| "f64_le (Fin x) NegInf = False"

text \<open>\<open>ilog2 x\<close> is the binary exponent of a positive rational: \<open>2 powi ilog2 x \<le> x < 2 powi (ilog2 x + 1)\<close>.\<close>

definition ilog2 :: "rat \<Rightarrow> int" where
  "ilog2 x = (case quotient_of x of (a, b) \<Rightarrow>
      (let k = bitlen a - bitlen b in if 2 powi k \<le> x then k else k - 1))"

definition round_half_even :: "rat \<Rightarrow> int" where
  "round_half_even x = (let n = \<lfloor>x\<rfloor>; r = x - of_int n in
      if r < 1 / 2 then n else if 1 / 2 < r then n + 1 else if even n then n else n + 1)"

text \<open>
  IEEE 754 binary64 rounding to nearest, ties to even: 53 significant bits, the least
  exponent of the last place \<open>- 1074\<close>, overflow to an infinity from \<open>2 ^ 1024\<close> on.
\<close>

definition round64 :: "rat \<Rightarrow> float64" where
  "round64 x = (if x = 0 then Fin 0 else
     (let e = max (ilog2 \<bar>x\<bar> - 52) (- 1074);
          y = of_int (round_half_even (x / 2 powi e)) * 2 powi e
      in if 2 ^ 1024 \<le> \<bar>y\<bar> then (if 0 < x then PosInf else NegInf) else Fin y))"

fun f64_add :: "float64 \<Rightarrow> float64 \<Rightarrow> float64" where
  "f64_add (Fin x) (Fin y) = round64 (x + y)"
| "f64_add NaN _ = NaN"
| "f64_add _ NaN = NaN"
| "f64_add PosInf NegInf = NaN"
| "f64_add NegInf PosInf = NaN"
| "f64_add PosInf _ = PosInf"
| "f64_add _ PosInf = PosInf"
| "f64_add NegInf _ = NegInf"
| "f64_add _ NegInf = NegInf"

fun f64_mul :: "float64 \<Rightarrow> float64 \<Rightarrow> float64" where
  "f64_mul (Fin x) (Fin y) = round64 (x * y)"
| "f64_mul NaN _ = NaN"
| "f64_mul _ NaN = NaN"
| "f64_mul PosInf b = (if b = Fin 0 then NaN else if f64_less b (Fin 0) then NegInf else PosInf)"
| "f64_mul NegInf b = (if b = Fin 0 then NaN else if f64_less b (Fin 0) then PosInf else NegInf)"
| "f64_mul a PosInf = (if a = Fin 0 then NaN else if f64_less a (Fin 0) then NegInf else PosInf)"
| "f64_mul a NegInf = (if a = Fin 0 then NaN else if f64_less a (Fin 0) then PosInf else NegInf)"

subsection \<open>Traces\<close>

type_synonym error = string

datatype action = Reboot | Shutdown

datatype pin_state = Low | High

text \<open>
  What a goroutine does, in order: a line on \<^verbatim>\<open>stdlog\<close> or \<^verbatim>\<open>errlog\<close> (the arguments of
  \<^verbatim>\<open>Println\<close>), a call of \<^verbatim>\<open>getCurrentTemperature\<close>, a send on \<^verbatim>\<open>tempChannel\<close> or
  \<^verbatim>\<open>errCh\<close>, a call of \<^verbatim>\<open>Write_block_data\<close> (command byte and block), a call of
  \<^verbatim>\<open>Run\<close> on one of the two commands, the start of the three goroutines, \<^verbatim>\<open>cancel()\<close>.
\<close>

datatype event =
    Stdlog "string list"
  | Errlog "string list"
  | Read_sensor
  | Send_temp float64
  | Send_err error
  | Bus_write "8 word" "8 word list"
  | Run action
  | Go_workers
  | Cancel

datatype outcome = Running | Returned

fun sent_temps :: "event list \<Rightarrow> float64 list" where
  "sent_temps [] = []"
| "sent_temps (Send_temp t # tr) = t # sent_temps tr"
| "sent_temps (_ # tr) = sent_temps tr"

fun sent_errs :: "event list \<Rightarrow> error list" where
  "sent_errs [] = []"
| "sent_errs (Send_err e # tr) = e # sent_errs tr"
| "sent_errs (_ # tr) = sent_errs tr"

fun sensor_reads :: "event list \<Rightarrow> nat" where
  "sensor_reads [] = 0"
| "sensor_reads (Read_sensor # tr) = Suc (sensor_reads tr)"
| "sensor_reads (_ # tr) = sensor_reads tr"

fun bus_writes :: "event list \<Rightarrow> (8 word \<times> 8 word list) list" where
  "bus_writes [] = []"
| "bus_writes (Bus_write c b # tr) = (c, b) # bus_writes tr"
| "bus_writes (_ # tr) = bus_writes tr"

fun invoked :: "event list \<Rightarrow> action list" where
  "invoked [] = []"
| "invoked (Run a # tr) = a # invoked tr"
| "invoked (_ # tr) = invoked tr"

subsection \<open>Temperature poller\<close>

text \<open>
  One script entry per iteration of the loop of \<^verbatim>\<open>monitorTemperature\<close>: whether
  \<^verbatim>\<open>ctx.Done()\<close> is ready at the \<^verbatim>\<open>select\<close>, and what \<^verbatim>\<open>getCurrentTemperature\<close> returns
  if it is called. The worker is \<open>Running\<close> when the script ends before the loop does.
\<close>

fun monitorTemperature :: "(bool \<times> (error + float64)) list \<Rightarrow> outcome \<times> event list" where
  "monitorTemperature [] = (Running, [])"
| "monitorTemperature ((done, r) # rest) =
     (if done then (Returned, [Stdlog [''temperature-watch: cancellation requested'']])
      else (case r of
              Inl err \<Rightarrow> (Returned, [Read_sensor, Send_err err])
            | Inr temp \<Rightarrow>
                (case monitorTemperature rest of
                   (out, tr) \<Rightarrow> (out, Read_sensor # Send_temp temp # tr))))"

subsection \<open>Fan controller\<close>

definition smbusFanAddress :: "8 word" where
  "smbusFanAddress = 0x1a"

text \<open>\<^verbatim>\<open>binary.LittleEndian.PutUint32\<close> into a slice of four bytes.\<close>

definition PutUint32 :: "32 word \<Rightarrow> 8 word list" where
  "PutUint32 v = [ucast v, ucast (drop_bit 8 v), ucast (drop_bit 16 v), ucast (drop_bit 24 v)]"

text \<open>
  One script entry per \<^verbatim>\<open>select\<close> of \<^verbatim>\<open>handleTemperature\<close>: the case taken (when both
  are ready Go chooses either) and, for a reading, what \<^verbatim>\<open>Write_block_data\<close> returns if
  it is called. The source drops that result.
\<close>

datatype select_case = Ctx_done | Recv float64 "error option"

fun handleTemperature :: "select_case list \<Rightarrow> outcome \<times> event list" where
  "handleTemperature [] = (Running, [])"
| "handleTemperature (Ctx_done # rest) =
     (Returned, [Stdlog [''temperature-handler: cancellation requested'']])"
| "handleTemperature (Recv temp written # rest) =
     (case handleTemperature rest of
        (out, tr) \<Rightarrow>
          (out, (if f64_less (Fin 50) temp
                 then [Bus_write smbusFanAddress (PutUint32 100)] else []) @ tr))"

subsection \<open>Shutdown-button watcher\<close>

text \<open>The literal \<^verbatim>\<open>0.1\<close> as a float64: the binary64 value nearest to one tenth.\<close>

definition tick :: float64 where
  "tick = Fin (3602879701896397 / 36028797018963968)"

text \<open>
  The inner loop \<^verbatim>\<open>for shutdownPin.Read() == rpio.High { ...; pulseTime += tick }\<close> over
  the levels the pin reads: the pulse time at the first low level and the levels left, or
  \<open>None\<close> when the levels end while the pin is still high.
\<close>

fun measure_pulse :: "pin_state list \<Rightarrow> float64 \<Rightarrow> (float64 \<times> pin_state list) option" where
  "measure_pulse [] pulseTime = None"
| "measure_pulse (Low # pins) pulseTime = Some (pulseTime, pins)"
| "measure_pulse (High # pins) pulseTime = measure_pulse pins (f64_add pulseTime tick)"

definition run_cmd :: "action \<Rightarrow> error option \<Rightarrow> event list" where
  "run_cmd a res = Run a # (case res of None \<Rightarrow> [] | Some err \<Rightarrow> [Send_err err])"

text \<open>The two \<^verbatim>\<open>if\<close> statements after the inner loop, with what each \<^verbatim>\<open>Run\<close> returns.\<close>

definition classify :: "float64 \<Rightarrow> error option \<Rightarrow> error option \<Rightarrow> event list" where
  "classify pulseTime rebootRes shutdownRes =
     (if f64_le (Fin 2) pulseTime \<or> f64_le pulseTime (Fin 3) then run_cmd Reboot rebootRes else [])
     @ (if f64_le (Fin 4) pulseTime then run_cmd Shutdown shutdownRes else [])"

text \<open>
  One script entry per iteration of the outer loop: whether \<^verbatim>\<open>ctx.Done()\<close> is ready at
  the \<^verbatim>\<open>select\<close>, and what the two commands return if they are run. The pin levels are
  read from one list across the iterations.
\<close>

record iteration =
  ctxDone :: bool
  rebootRes :: "error option"
  shutdownRes :: "error option"

fun watch_loop :: "iteration list \<Rightarrow> pin_state list \<Rightarrow> outcome \<times> event list" where
  "watch_loop [] pins = (Running, [])"
| "watch_loop (it # its) pins =
     (if ctxDone it then (Returned, [Stdlog [''button-watch: cancellation requested'']])
      else (case measure_pulse pins tick of
              None \<Rightarrow> (Running, [])
            | Some (pulseTime, pins') \<Rightarrow>
                (case watch_loop its pins' of
                   (out, tr) \<Rightarrow>
                     (out, classify pulseTime (rebootRes it) (shutdownRes it) @ tr))))"

definition watchShutdownButton ::
  "error option \<Rightarrow> iteration list \<Rightarrow> pin_state list \<Rightarrow> outcome \<times> event list" where
  "watchShutdownButton opened its pins =
     (case opened of
        Some err \<Rightarrow> (Returned, [Send_err err])
      | None \<Rightarrow> watch_loop its pins)"

subsection \<open>Supervisor\<close>

text \<open>
  What the \<^verbatim>\<open>select\<close> of \<^verbatim>\<open>Manage\<close> receives: a signal from \<^verbatim>\<open>osInterrupt\<close> or an error
  from \<^verbatim>\<open>errChannel\<close>. \<^verbatim>\<open>Manage\<close> takes the arguments after the program name, the answer
  of the service manager to a subcommand, the results of opening the GPIO and the bus, and
  the events that become ready, in the order the \<^verbatim>\<open>select\<close> would take them; it blocks
  (\<open>None\<close>) when there is none.
\<close>

datatype sup_event = Os_interrupt string | Err_received error

definition usage :: string where
  "usage = ''Usage: argononepicontroller install | remove | start | stop | status''"

definition Manage ::
  "string list \<Rightarrow> (string \<Rightarrow> string \<times> error option) \<Rightarrow> error option \<Rightarrow> error option \<Rightarrow>
   sup_event list \<Rightarrow> ((string \<times> error option) \<times> event list) option" where
  "Manage args service gpio bus evs =
     (case args of
        command # _ \<Rightarrow>
          Some ((if command \<in> set [''install'', ''remove'', ''start'', ''stop'', ''status'']
                 then service command else (usage, None)), [])
      | [] \<Rightarrow>
          (case gpio of
             Some err \<Rightarrow> Some ((''failed opening gpio'', Some err), [])
           | None \<Rightarrow>
               (case bus of
                  Some err \<Rightarrow> Some ((''failed opening smbus'', Some err), [])
                | None \<Rightarrow>
                    (case evs of
                       [] \<Rightarrow> None
                     | Os_interrupt killSignal # _ \<Rightarrow>
                         Some ((''Process finished'', None),
                               [Go_workers, Stdlog [''Got signal: '', killSignal], Cancel])
                     | Err_received err # _ \<Rightarrow>
                         Some ((''failed'', Some err), [Go_workers, Cancel])))))"

text \<open>
  \<^verbatim>\<open>main\<close>: the exit status of the process and its trace, given the result of
  \<^verbatim>\<open>daemon.New\<close> and the inputs of \<^verbatim>\<open>Manage\<close>.
\<close>

definition main ::
  "error option \<Rightarrow> string list \<Rightarrow> (string \<Rightarrow> string \<times> error option) \<Rightarrow> error option \<Rightarrow>
   error option \<Rightarrow> sup_event list \<Rightarrow> (nat \<times> event list) option" where
  "main created args service gpio bus evs =
     (case created of
        Some err \<Rightarrow> Some (1, [Errlog [''Error: '', err]])
      | None \<Rightarrow>
          (case Manage args service gpio bus evs of
             None \<Rightarrow> None
           | Some ((status, Some err), tr) \<Rightarrow>
               Some (1, tr @ [Errlog [status, CHR 0x0A # ''Error: '', err]])
           | Some ((status, None), tr) \<Rightarrow> Some (0, tr @ [Stdlog [status]])))"

section \<open>Properties\<close>

subsection \<open>Traces of appended runs\<close>

lemma invoked_append: "invoked (xs @ ys) = invoked xs @ invoked ys"
  by (induction xs rule: invoked.induct) simp_all

lemma sent_errs_append: "sent_errs (xs @ ys) = sent_errs xs @ sent_errs ys"
  by (induction xs rule: sent_errs.induct) simp_all

lemma sent_temps_append: "sent_temps (xs @ ys) = sent_temps xs @ sent_temps ys"
  by (induction xs rule: sent_temps.induct) simp_all

lemma bus_writes_append: "bus_writes (xs @ ys) = bus_writes xs @ bus_writes ys"
  by (induction xs rule: bus_writes.induct) simp_all

lemma sensor_reads_append: "sensor_reads (xs @ ys) = sensor_reads xs + sensor_reads ys"
  by (induction xs rule: sensor_reads.induct) simp_all

lemma invoked_run_cmd: "invoked (run_cmd a r) = [a]"
  by (simp add: run_cmd_def split: option.splits)

lemma sent_errs_run_cmd: "sent_errs (run_cmd a r) = (case r of None \<Rightarrow> [] | Some e \<Rightarrow> [e])"
  by (simp add: run_cmd_def split: option.splits)

subsection \<open>Classification of the pulse time\<close>

lemma f64_le_total: "d \<noteq> NaN \<Longrightarrow> f64_le (Fin 2) d \<or> f64_le d (Fin 3)"
  by (cases d) auto

lemma f64_le_trans_4_2: "f64_le (Fin 4) d \<Longrightarrow> f64_le (Fin 2) d"
  by (cases d) auto

text \<open>
  Claim C1. Whatever the two commands return, a pulse time of at least 2 runs the reboot
  command, and a pulse time of at least 4 runs the reboot command and then the shutdown
  command on the same release; the condition \<^verbatim>\<open>pulseTime >= 2 || pulseTime <= 3\<close> holds
  for every pulse time that is a number.
\<close>

theorem classify_reboot_and_poweroff:
  "(f64_le (Fin 2) d \<longrightarrow> Reboot \<in> set (invoked (classify d r s)))
   \<and> (f64_le (Fin 4) d \<longrightarrow> invoked (classify d r s) = [Reboot, Shutdown])
   \<and> (d \<noteq> NaN \<longrightarrow> f64_le (Fin 2) d \<or> f64_le d (Fin 3))"
  using f64_le_trans_4_2 [of d] f64_le_total [of d]
  by (auto simp add: classify_def invoked_append invoked_run_cmd)

theorem classify_reboot_and_poweroff_witness:
  "f64_le (Fin 2) (Fin 5) \<and> f64_le (Fin 4) (Fin 5) \<and> Fin 5 \<noteq> NaN
   \<and> Reboot \<in> set (invoked (classify (Fin 5) None None))
   \<and> invoked (classify (Fin 5) None None) = [Reboot, Shutdown]"
  using classify_reboot_and_poweroff [of "Fin 5" None None] by simp

subsection \<open>Fan controller\<close>

lemma PutUint32_100: "PutUint32 100 = [100, 0, 0, 0]"
  by (simp add: PutUint32_def drop_bit_eq_div)

lemma f64_le_not_less: "f64_le r (Fin 50) \<Longrightarrow> \<not> f64_less (Fin 50) r"
  by (cases r) auto

text \<open>
  Claim C2. A reading above 50 makes the fan controller write exactly one block, the four
  bytes 100, 0, 0, 0 (100 as a little-endian 32-bit unsigned integer), before it goes on
  with the rest of its input; a reading of at most 50 makes it write nothing.
\<close>

theorem handleTemperature_reading:
  "(f64_less (Fin 50) r \<longrightarrow>
      bus_writes (snd (handleTemperature (Recv r w # rest))) =
        (0x1a, [100, 0, 0, 0]) # bus_writes (snd (handleTemperature rest)))
   \<and> (f64_le r (Fin 50) \<longrightarrow>
      bus_writes (snd (handleTemperature (Recv r w # rest))) =
        bus_writes (snd (handleTemperature rest)))"
  using f64_le_not_less [of r]
  by (auto simp add: bus_writes_append PutUint32_100 smbusFanAddress_def split: prod.splits)

theorem handleTemperature_reading_witness:
  "f64_less (Fin 50) (Fin 55) \<and> f64_le (Fin 40) (Fin 50)
   \<and> bus_writes (snd (handleTemperature [Recv (Fin 55) None])) = [(0x1a, [100, 0, 0, 0])]
   \<and> bus_writes (snd (handleTemperature [Recv (Fin 40) None])) = []"
  using handleTemperature_reading [of "Fin 55" None "[]"]
    handleTemperature_reading [of "Fin 40" None "[]"]
  by simp

lemma handleTemperature_writes:
  "set (bus_writes (snd (handleTemperature s))) \<subseteq> {(smbusFanAddress, PutUint32 100)}"
  by (induction s rule: handleTemperature.induct)
    (auto simp add: bus_writes_append split: prod.splits)

text \<open>
  Claim C5. Whatever the fan controller receives, every block it writes is the speed-100
  block: it never writes a lower speed or a stop.
\<close>

theorem handleTemperature_raise_only:
  "\<forall>c \<in> set (bus_writes (snd (handleTemperature s))). c = (0x1a, [100, 0, 0, 0])"
  using handleTemperature_writes [of s] by (auto simp add: PutUint32_100 smbusFanAddress_def)

theorem handleTemperature_raise_only_witness:
  "set (bus_writes (snd (handleTemperature
      [Recv (Fin 30) None, Recv (Fin 55) None, Recv (Fin 40) None]))) = {(0x1a, [100, 0, 0, 0])}"
  using handleTemperature_raise_only [of "[Recv (Fin 30) None, Recv (Fin 55) None, Recv (Fin 40) None]"]
  by (simp add: PutUint32_100 smbusFanAddress_def)

lemma handleTemperature_no_errs: "sent_errs (snd (handleTemperature s)) = []"
  by (induction s rule: handleTemperature.induct)
    (auto simp add: sent_errs_append split: prod.splits)

text \<open>
  Claim C6. A bus write that fails changes nothing in what the fan controller does: the
  run is the one with a successful write, nothing is sent on the error channel, and the
  worker goes on with the readings that follow.
\<close>

theorem handleTemperature_drops_write_error:
  "handleTemperature (Recv t (Some e) # rest) = handleTemperature (Recv t None # rest)
   \<and> sent_errs (snd (handleTemperature (Recv t (Some e) # rest))) = []
   \<and> fst (handleTemperature (Recv t (Some e) # rest)) = fst (handleTemperature rest)
   \<and> bus_writes (snd (handleTemperature (Recv t (Some e) # rest))) =
       (if f64_less (Fin 50) t then [(smbusFanAddress, PutUint32 100)] else [])
       @ bus_writes (snd (handleTemperature rest))"
  using handleTemperature_no_errs [of "Recv t (Some e) # rest"]
  by (simp add: bus_writes_append split: prod.splits)

subsection \<open>Temperature poller\<close>

lemma monitorTemperature_ok_prefix:
  "monitorTemperature (map (\<lambda>t. (False, Inr t)) ts @ rest) =
     (fst (monitorTemperature rest),
      concat (map (\<lambda>t. [Read_sensor, Send_temp t]) ts) @ snd (monitorTemperature rest))"
  by (induction ts) (simp_all split: prod.splits)

lemma sent_temps_reads: "sent_temps (concat (map (\<lambda>t. [Read_sensor, Send_temp t]) ts)) = ts"
  by (induction ts) simp_all

lemma sent_errs_reads: "sent_errs (concat (map (\<lambda>t. [Read_sensor, Send_temp t]) ts)) = []"
  by (induction ts) simp_all

lemma sensor_reads_reads:
  "sensor_reads (concat (map (\<lambda>t. [Read_sensor, Send_temp t]) ts)) = length ts"
  by (induction ts) simp_all

text \<open>
  Claim C3. With no cancellation, reads that all succeed are all forwarded, in order and
  unchanged, and the poller keeps running. When the reads \<open>ts\<close> succeed and the next one
  fails with \<open>e\<close>, the poller forwards exactly \<open>ts\<close>, sends \<open>e\<close> on the error channel
  and returns: it has read the sensor \<open>length ts + 1\<close> times and never again, whatever
  the script holds after the failure.
\<close>

theorem monitorTemperature_forwards:
  "monitorTemperature (map (\<lambda>t. (False, Inr t)) ts) =
     (Running, concat (map (\<lambda>t. [Read_sensor, Send_temp t]) ts))
   \<and> sent_temps (snd (monitorTemperature (map (\<lambda>t. (False, Inr t)) ts))) = ts
   \<and> sent_errs (snd (monitorTemperature (map (\<lambda>t. (False, Inr t)) ts))) = []
   \<and> fst (monitorTemperature (map (\<lambda>t. (False, Inr t)) ts @ (False, Inl e) # post)) = Returned
   \<and> sent_temps (snd (monitorTemperature (map (\<lambda>t. (False, Inr t)) ts @ (False, Inl e) # post))) = ts
   \<and> sent_errs (snd (monitorTemperature (map (\<lambda>t. (False, Inr t)) ts @ (False, Inl e) # post))) = [e]
   \<and> sensor_reads (snd (monitorTemperature (map (\<lambda>t. (False, Inr t)) ts @ (False, Inl e) # post)))
       = Suc (length ts)"
  using monitorTemperature_ok_prefix [of ts "[]"]
  by (simp add: monitorTemperature_ok_prefix sent_temps_append sent_errs_append
      sensor_reads_append sent_temps_reads sent_errs_reads sensor_reads_reads)

subsection \<open>Shutdown-button watcher\<close>

lemma round64_not_NaN: "round64 x \<noteq> NaN"
  by (simp add: round64_def Let_def)

lemma f64_add_tick_not_NaN: "p \<noteq> NaN \<Longrightarrow> f64_add p tick \<noteq> NaN"
  by (cases p) (simp_all add: tick_def round64_not_NaN)

lemma measure_pulse_not_NaN:
  "measure_pulse pins p = Some (q, pins') \<Longrightarrow> p \<noteq> NaN \<Longrightarrow> q \<noteq> NaN"
  by (induction pins p rule: measure_pulse.induct) (simp_all add: f64_add_tick_not_NaN)

lemma classify_reboot_first:
  "d \<noteq> NaN \<Longrightarrow> take 1 (invoked (classify d r s)) = [Reboot]"
  using f64_le_total [of d] by (simp add: classify_def invoked_append invoked_run_cmd)

lemma tick_le_3: "f64_le tick (Fin 3) \<and> \<not> f64_le (Fin 2) tick \<and> \<not> f64_le (Fin 4) tick"
  by (simp add: tick_def)

lemma classify_tick: "invoked (classify tick r s) = [Reboot]"
  using tick_le_3 by (simp add: classify_def invoked_append invoked_run_cmd)

lemma watch_loop_step:
  "\<not> ctxDone it \<Longrightarrow> measure_pulse pins tick = Some (p, pins') \<Longrightarrow>
   watch_loop (it # its) pins =
     (fst (watch_loop its pins'),
      classify p (rebootRes it) (shutdownRes it) @ snd (watch_loop its pins'))"
  by (simp split: prod.splits)

lemma watch_loop_no_press:
  "\<forall>it \<in> set its. \<not> ctxDone it \<Longrightarrow>
   invoked (snd (watch_loop its (replicate (length its) Low @ pins))) =
     replicate (length its) Reboot"
  by (induction its) (auto simp add: invoked_append classify_tick split: prod.splits)

lemma take1_append: "take 1 xs = [a] \<Longrightarrow> take 1 (xs @ ys) = [a]"
  by (cases xs) simp_all

lemma watch_loop_reboot_first:
  assumes "\<not> ctxDone it" and m: "measure_pulse levels tick = Some (p, levels')"
  shows "take 1 (invoked (snd (watch_loop (it # its) levels))) = [Reboot]"
proof -
  have "p \<noteq> NaN"
    using measure_pulse_not_NaN [OF m] by (simp add: tick_def)
  then have "take 1 (invoked (classify p (rebootRes it) (shutdownRes it))) = [Reboot]"
    by (rule classify_reboot_first)
  then have "take 1 (invoked (classify p (rebootRes it) (shutdownRes it)
      @ snd (watch_loop its levels'))) = [Reboot]"
    unfolding invoked_append by (rule take1_append)
  then show ?thesis
    by (simp only: watch_loop_step [OF assms] snd_conv)
qed

text \<open>
  Claim C10. When the pin reads low at the first poll of an iteration (no press), the
  pulse time is its initial value, the float64 \<^verbatim>\<open>0.1\<close>; it is at most 3, so the reboot
  command is run in that iteration, and in every iteration of a run without cancellation
  and without any press. With a press too: every iteration that is not cancelled and
  whose measurement ends runs the reboot command first.
\<close>

theorem no_press_reboots:
  "measure_pulse (Low # pins) tick = Some (tick, pins)
   \<and> f64_le tick (Fin 3)
   \<and> (\<not> ctxDone it \<longrightarrow>
        invoked (snd (watch_loop (it # its) (Low # pins))) =
          Reboot # invoked (snd (watch_loop its pins)))
   \<and> ((\<forall>it \<in> set its. \<not> ctxDone it) \<longrightarrow>
        invoked (snd (watch_loop its (replicate (length its) Low))) =
          replicate (length its) Reboot)
   \<and> (\<not> ctxDone it \<and> measure_pulse levels tick = Some (p, levels') \<longrightarrow>
        take 1 (invoked (snd (watch_loop (it # its) levels))) = [Reboot])"
  using watch_loop_no_press [of its "[]"] tick_le_3 watch_loop_reboot_first [of it levels p levels' its]
  by (simp add: invoked_append classify_tick split: prod.splits)

theorem no_press_reboots_witness:
  "\<not> ctxDone \<lparr>ctxDone = False, rebootRes = None, shutdownRes = None\<rparr>
   \<and> measure_pulse [Low] tick = Some (tick, [])
   \<and> invoked (snd (watch_loop
        [\<lparr>ctxDone = False, rebootRes = None, shutdownRes = None\<rparr>,
         \<lparr>ctxDone = False, rebootRes = None, shutdownRes = None\<rparr>] [Low, Low])) = [Reboot, Reboot]"
  using no_press_reboots [of "[Low]" "\<lparr>ctxDone = False, rebootRes = None, shutdownRes = None\<rparr>"
      "[\<lparr>ctxDone = False, rebootRes = None, shutdownRes = None\<rparr>]" "[Low]" tick "[]"]
    no_press_reboots [of "[]" "\<lparr>ctxDone = False, rebootRes = None, shutdownRes = None\<rparr>" "[]"
      "[Low]" tick "[]"]
  by simp

lemma watch_loop_results_indep:
  "invoked (snd (watch_loop (map (\<lambda>it. it\<lparr>rebootRes := r it, shutdownRes := s it\<rparr>) its) pins)) =
     invoked (snd (watch_loop its pins))"
  by (induction its pins rule: watch_loop.induct)
    (auto simp add: invoked_append classify_def invoked_run_cmd split: prod.splits option.splits)

text \<open>
  Claim C7. An error returned by the reboot command or by the shutdown command is sent on
  the error channel, in the order the commands are run, and nothing else is. What the
  commands return does not change which commands are run, and each is run at most once
  per release: a failure is followed by no second attempt, and over the whole run the
  commands run are those of the run in which every command succeeds. The supervisor that
  receives the error cancels and the process exits with status 1.
\<close>

theorem classify_forwards_errors:
  "sent_errs (classify d r s) =
     (if Reboot \<in> set (invoked (classify d r s))
      then (case r of None \<Rightarrow> [] | Some e \<Rightarrow> [e]) else [])
     @ (if Shutdown \<in> set (invoked (classify d r s))
        then (case s of None \<Rightarrow> [] | Some e \<Rightarrow> [e]) else [])
   \<and> invoked (classify d r s) = invoked (classify d None None)
   \<and> distinct (invoked (classify d r s))
   \<and> (\<not> ctxDone it \<and> measure_pulse pins tick = Some (p, pins') \<longrightarrow>
        sent_errs (snd (watch_loop (it # its) pins)) =
          sent_errs (classify p (rebootRes it) (shutdownRes it)) @ sent_errs (snd (watch_loop its pins')))
   \<and> invoked (snd (watch_loop
        (map (\<lambda>it. it\<lparr>rebootRes := None, shutdownRes := None\<rparr>) script) levels)) =
       invoked (snd (watch_loop script levels))
   \<and> main None [] service None None (Err_received e # evs) =
       Some (1, [Go_workers, Cancel, Errlog [''failed'', CHR 0x0A # ''Error: '', e]])"
  by (simp add: classify_def invoked_append invoked_run_cmd sent_errs_append sent_errs_run_cmd
      main_def Manage_def watch_loop_results_indep split: prod.splits)

theorem classify_forwards_errors_witness:
  "\<not> ctxDone \<lparr>ctxDone = False, rebootRes = Some ''exit status 1'', shutdownRes = None\<rparr>
   \<and> measure_pulse [Low] tick = Some (tick, [])
   \<and> sent_errs (snd (watch_loop
        [\<lparr>ctxDone = False, rebootRes = Some ''exit status 1'', shutdownRes = None\<rparr>] [Low])) =
       [''exit status 1'']"
  using classify_forwards_errors [of tick "Some ''exit status 1''" None
      "\<lparr>ctxDone = False, rebootRes = Some ''exit status 1'', shutdownRes = None\<rparr>"
      "[Low]" tick "[]" "[]" "[]" "[]"]
    classify_tick [of "Some ''exit status 1''" None]
  by simp

subsection \<open>Supervisor\<close>

text \<open>
  Claim C8. With no subcommand and both devices opened, the supervisor waits for a signal
  or an error and blocks while there is neither. On a signal it logs it, cancels, and the
  process exits with status 0; on an error it cancels and the process exits with status
  1 after logging \<^verbatim>\<open>failed\<close> and the error. Only the first event is acted on: the
  events after it change nothing.
\<close>

theorem Manage_select:
  "Manage [] service None None [] = None
   \<and> Manage [] service None None (Os_interrupt killSignal # evs) =
       Some ((''Process finished'', None),
             [Go_workers, Stdlog [''Got signal: '', killSignal], Cancel])
   \<and> main None [] service None None (Os_interrupt killSignal # evs) =
       Some (0, [Go_workers, Stdlog [''Got signal: '', killSignal], Cancel,
                 Stdlog [''Process finished'']])
   \<and> Manage [] service None None (Err_received e # evs) =
       Some ((''failed'', Some e), [Go_workers, Cancel])
   \<and> main None [] service None None (Err_received e # evs) =
       Some (1, [Go_workers, Cancel, Errlog [''failed'', CHR 0x0A # ''Error: '', e]])"
  by (simp add: main_def Manage_def)

subsection \<open>Cancellation\<close>

lemma monitorTemperature_cancel_prefix:
  "sent_temps (snd (monitorTemperature (pre @ (True, r) # post))) =
     sent_temps (snd (monitorTemperature pre))"
  by (induction pre rule: monitorTemperature.induct) (auto split: prod.splits sum.splits)

lemma handleTemperature_cancel_prefix:
  "bus_writes (snd (handleTemperature (pre @ Ctx_done # post))) =
     bus_writes (snd (handleTemperature pre))"
  by (induction pre rule: handleTemperature.induct)
    (auto simp add: bus_writes_append split: prod.splits)

lemma watch_loop_cancel_prefix:
  "ctxDone it \<Longrightarrow>
   invoked (snd (watch_loop (pre @ it # post) pins)) = invoked (snd (watch_loop pre pins))"
  by (induction pre pins rule: watch_loop.induct)
    (auto simp add: invoked_append split: prod.splits option.splits)

text \<open>
  Claim C9. A worker that finds the context done at the \<^verbatim>\<open>select\<close> at the top of its loop
  logs and returns. Whatever the script holds after that point, the poller has sent the
  readings it had sent before and no other, the fan controller has written the blocks it
  had written before and no other, and the button watcher has run the commands it had run
  before and no other. Each iteration looks at the context once, at its top.
\<close>

theorem cancellation_stops_workers:
  "monitorTemperature ((True, r) # rest) =
     (Returned, [Stdlog [''temperature-watch: cancellation requested'']])
   \<and> sent_temps (snd (monitorTemperature (pre @ (True, r) # rest))) =
       sent_temps (snd (monitorTemperature pre))
   \<and> handleTemperature (Ctx_done # cases) =
       (Returned, [Stdlog [''temperature-handler: cancellation requested'']])
   \<and> bus_writes (snd (handleTemperature (sel @ Ctx_done # cases))) =
       bus_writes (snd (handleTemperature sel))
   \<and> (ctxDone it \<longrightarrow>
        watch_loop (it # its) pins =
          (Returned, [Stdlog [''button-watch: cancellation requested'']])
        \<and> invoked (snd (watch_loop (before @ it # its) pins)) =
            invoked (snd (watch_loop before pins)))"
  using watch_loop_cancel_prefix [of it before its pins]
  by (simp add: monitorTemperature_cancel_prefix handleTemperature_cancel_prefix)

theorem cancellation_stops_workers_witness:
  "ctxDone \<lparr>ctxDone = True, rebootRes = None, shutdownRes = None\<rparr>
   \<and> invoked (snd (watch_loop
        [\<lparr>ctxDone = False, rebootRes = None, shutdownRes = None\<rparr>,
         \<lparr>ctxDone = True, rebootRes = None, shutdownRes = None\<rparr>,
         \<lparr>ctxDone = False, rebootRes = None, shutdownRes = None\<rparr>] [Low, Low, Low])) = [Reboot]"
  using cancellation_stops_workers [of "Inr (Fin 30)" "[]" "[]" "[]" "[]"
      "\<lparr>ctxDone = True, rebootRes = None, shutdownRes = None\<rparr>"
      "[\<lparr>ctxDone = False, rebootRes = None, shutdownRes = None\<rparr>]" "[Low, Low, Low]"
      "[\<lparr>ctxDone = False, rebootRes = None, shutdownRes = None\<rparr>]"]
    classify_tick [of None None]
  by (simp add: invoked_append split: prod.splits)

subsection \<open>Rounding to float64\<close>

lemma bitlen_bounds_rat:
  assumes "0 < a"
  shows "(2::rat) powi (bitlen a - 1) \<le> of_int a" and "of_int a < (2::rat) powi bitlen a"
proof -
  from assms have ge1: "1 \<le> bitlen a"
    by (auto simp: bitlen_alt_def)
  from bitlen_bounds [OF assms]
  have l: "2 ^ nat (bitlen a - 1) \<le> a" and u: "a < 2 ^ nat (bitlen a)"
    by simp_all
  have "(of_int (2 ^ nat (bitlen a - 1)) :: rat) \<le> of_int a"
    using l by (simp only: of_int_le_iff)
  then show "(2::rat) powi (bitlen a - 1) \<le> of_int a"
    using ge1 by (simp add: power_int_nonneg_exp)
  have "(of_int a :: rat) < of_int (2 ^ nat (bitlen a))"
    using u by (simp only: of_int_less_iff)
  then show "of_int a < (2::rat) powi bitlen a"
    using ge1 by (simp add: power_int_nonneg_exp)
qed

lemma ilog2_bounds:
  assumes "0 < x"
  shows "2 powi ilog2 x \<le> x" and "x < 2 powi (ilog2 x + 1)"
proof -
  obtain a b where q: "quotient_of x = (a, b)"
    by (cases "quotient_of x")
  have b: "0 < b"
    using quotient_of_denom_pos [OF q] .
  have x: "x = of_int a / of_int b"
    using quotient_of_div [OF q] .
  have a: "0 < a"
    using assms b by (simp add: x zero_less_divide_iff)
  define k where "k = bitlen a - bitlen b"
  have il: "ilog2 x = (if 2 powi k \<le> x then k else k - 1)"
    by (simp add: ilog2_def q k_def Let_def)
  have B: "0 < (of_int b :: rat)"
    using b by simp
  have "x * of_int b < (2::rat) powi bitlen a"
    using bitlen_bounds_rat(2) [OF a] B by (simp add: x)
  also have "\<dots> = 2 powi (k + 1) * 2 powi (bitlen b - 1)"
    by (simp add: k_def flip: power_int_add)
  also have "\<dots> \<le> 2 powi (k + 1) * of_int b"
    using bitlen_bounds_rat(1) [OF b] by (simp add: mult_left_mono)
  finally have up: "x < 2 powi (k + 1)"
    using B by simp
  have "(2::rat) powi (k - 1) * of_int b \<le> 2 powi (k - 1) * 2 powi bitlen b"
    using bitlen_bounds_rat(2) [OF b] by (simp add: mult_left_mono)
  also have "\<dots> = 2 powi (bitlen a - 1)"
    by (simp add: k_def flip: power_int_add)
  also have "\<dots> \<le> x * of_int b"
    using bitlen_bounds_rat(1) [OF a] B by (simp add: x)
  finally have low: "2 powi (k - 1) \<le> x"
    using B by simp
  show "2 powi ilog2 x \<le> x"
    using low by (simp add: il)
  show "x < 2 powi (ilog2 x + 1)"
    using up by (auto simp add: il)
qed

lemma powi2_less_imp_less:
  assumes "(2::rat) powi m < 2 powi n"
  shows "m < n"
proof (rule ccontr)
  assume "\<not> m < n"
  then have "n \<le> m" by simp
  then have "(2::rat) powi n \<le> 2 powi m"
    by (rule power_int_increasing) simp
  with assms show False by simp
qed

lemma ilog2_unique:
  assumes "2 powi k \<le> x" and "x < 2 powi (k + 1)"
  shows "ilog2 x = k"
proof -
  have "(0::rat) < 2 powi k" by simp
  then have pos: "0 < x"
    using assms(1) by (rule less_le_trans)
  note b = ilog2_bounds [OF pos]
  have "(2::rat) powi k < 2 powi (ilog2 x + 1)"
    using assms(1) b(2) by (rule le_less_trans)
  then have 1: "k < ilog2 x + 1"
    by (rule powi2_less_imp_less)
  have "(2::rat) powi ilog2 x < 2 powi (k + 1)"
    using b(1) assms(2) by (rule le_less_trans)
  then have 2: "ilog2 x < k + 1"
    by (rule powi2_less_imp_less)
  from 1 2 show ?thesis by simp
qed

lemma round_half_even_error: "\<bar>of_int (round_half_even x) - x\<bar> \<le> 1 / 2"
proof -
  define r where "r = x - of_int \<lfloor>x\<rfloor>"
  have r: "0 \<le> r" "r < 1"
    unfolding r_def by linarith+
  have x: "x = of_int \<lfloor>x\<rfloor> + r"
    by (simp add: r_def)
  consider "r < 1 / 2" | "1 / 2 < r" | "r = 1 / 2"
    by linarith
  then show ?thesis
  proof cases
    case 1
    then have "round_half_even x = \<lfloor>x\<rfloor>"
      by (simp add: round_half_even_def Let_def r_def)
    then show ?thesis using r 1 by (simp add: r_def)
  next
    case 2
    then have "round_half_even x = \<lfloor>x\<rfloor> + 1"
      by (simp add: round_half_even_def Let_def r_def)
    then show ?thesis using r 2 unfolding r_def by (simp add: abs_if) 
  next
    case 3
    then have "round_half_even x = \<lfloor>x\<rfloor> \<or> round_half_even x = \<lfloor>x\<rfloor> + 1"
      by (simp add: round_half_even_def Let_def r_def)
    then show ?thesis using r 3 unfolding r_def by (auto simp add: abs_if)
  qed
qed

lemma round64_normal:
  assumes lo: "2 powi (e + 52) \<le> x" and hi: "x < 2 powi (e + 53)"
    and e: "- 1074 \<le> e" "e \<le> 970"
  shows "round64 x = Fin (of_int (round_half_even (x / 2 powi e)) * 2 powi e)"
    and "\<bar>of_int (round_half_even (x / 2 powi e)) * 2 powi e - x\<bar> \<le> x / 2 ^ 53"
proof -
  define m where "m = x / 2 powi e"
  define n where "n = round_half_even m"
  have "(0::rat) < 2 powi (e + 52)" by simp
  then have pos: "0 < x"
    using lo by (rule less_le_trans)
  have E: "(0::rat) < 2 powi e" by simp
  have "ilog2 x = e + 52"
    using lo hi by (intro ilog2_unique) (simp_all add: add.commute)
  then have ex: "max (ilog2 \<bar>x\<bar> - 52) (- 1074) = e"
    using pos e by simp
  have x: "x = m * 2 powi e"
    by (simp add: m_def)
  have nm: "\<bar>of_int n - m\<bar> \<le> 1 / 2"
    unfolding n_def by (rule round_half_even_error)
  have "m * 2 powi e < 2 powi 53 * 2 powi e"
    using hi by (simp add: x [symmetric] power_int_add add.commute)
  then have m_hi: "m < 2 ^ 53"
    using E by simp
  have "2 powi 52 * 2 powi e \<le> m * 2 powi e"
    using lo by (simp add: x [symmetric] power_int_add add.commute)
  then have m_lo: "2 ^ 52 \<le> m"
    using E by simp
  have a: "of_int n \<le> m + 1 / 2"
    using nm by linarith
  have b: "m + 1 / 2 < 9007199254740993"
    using m_hi by simp
  have "(of_int n :: rat) < 9007199254740993"
    using a b by (rule le_less_trans)
  then have "(of_int n :: rat) < of_int 9007199254740993"
    by (simp only: of_int_numeral)
  then have "n < 9007199254740993"
    by (simp only: of_int_less_iff)
  then have "n \<le> 9007199254740992"
    by simp
  then have "(of_int n :: rat) \<le> of_int 9007199254740992"
    by (simp only: of_int_le_iff)
  then have n_hi: "(of_int n :: rat) \<le> 2 ^ 53"
    by simp
  have "(0 :: rat) \<le> m - 1 / 2"
    using m_lo by simp
  also have "\<dots> \<le> of_int n"
    using nm by linarith
  finally have n_lo: "(0 :: rat) \<le> of_int n" .
  have "of_int n * 2 powi e \<le> (2 ^ 53 :: rat) * 2 powi e"
    using n_hi E by (simp add: mult_right_mono)
  also have "\<dots> = 2 powi (e + 53)"
    by (simp add: power_int_add add.commute)
  also have "\<dots> \<le> 2 powi 1023"
    using e by (intro power_int_increasing) simp_all
  also have "\<dots> < (2 ^ 1024 :: rat)"
    by simp
  finally have small: "of_int n * 2 powi e < (2 ^ 1024 :: rat)" .
  have "\<bar>of_int n * 2 powi e\<bar> = (of_int n :: rat) * 2 powi e"
    using n_lo E by (simp add: abs_mult)
  with small have "\<not> (2 ^ 1024 :: rat) \<le> \<bar>of_int n * 2 powi e\<bar>"
    by simp
  then show "round64 x = Fin (of_int (round_half_even (x / 2 powi e)) * 2 powi e)"
    using pos ex by (simp add: round64_def Let_def n_def m_def)
  have "\<bar>of_int n * 2 powi e - x\<bar> = \<bar>of_int n - m\<bar> * 2 powi e"
    using E by (simp add: x abs_mult flip: left_diff_distrib)
  also have "\<dots> \<le> 1 / 2 * 2 powi e"
    using nm E by (intro mult_right_mono) simp_all
  also have "\<dots> = 2 powi (e + 52) / 2 ^ 53"
    by (simp add: power_int_add)
  also have "\<dots> \<le> x / 2 ^ 53"
    using lo by (simp add: divide_right_mono)
  finally show "\<bar>of_int (round_half_even (x / 2 powi e)) * 2 powi e - x\<bar> \<le> x / 2 ^ 53"
    by (simp add: n_def m_def)
qed

lemma round64_relative_error:
  assumes "1 / 8 \<le> x" and "x \<le> 2 ^ 21"
  shows "\<exists>y. round64 x = Fin y \<and> \<bar>y - x\<bar> \<le> x / 2 ^ 53"
proof -
  have pos: "0 < x"
    using assms(1) by simp
  define e where "e = ilog2 x - 52"
  note b = ilog2_bounds [OF pos]
  have "(2::rat) powi (- 3) < 2 powi (ilog2 x + 1)"
    using assms(1) b(2) by simp
  then have 1: "- 3 < ilog2 x + 1"
    by (rule powi2_less_imp_less)
  have "(2::rat) powi ilog2 x < 2 powi 22"
    using assms(2) b(1) by simp
  then have 2: "ilog2 x < 22"
    by (rule powi2_less_imp_less)
  have eq: "e + 52 = ilog2 x" "e + 53 = ilog2 x + 1"
    by (simp_all add: e_def)
  have lo: "2 powi (e + 52) \<le> x" and hi: "x < 2 powi (e + 53)"
    unfolding eq by (rule b)+
  have e: "- 1074 \<le> e" "e \<le> 970"
    using 1 2 by (simp_all add: e_def)
  from round64_normal [OF lo hi e] show ?thesis
    by blast
qed

lemma measure_pulse_replicate:
  "measure_pulse (replicate n High @ Low # pins) p =
     Some (((\<lambda>q. f64_add q tick) ^^ n) p, pins)"
  by (induction n arbitrary: p) (simp_all add: funpow_Suc_right del: funpow.simps)

lemma tick_accumulate_bound:
  "n < 2 ^ 20 \<Longrightarrow>
   \<exists>v. ((\<lambda>q. f64_add q tick) ^^ n) tick = Fin v
     \<and> \<bar>v - (of_nat n + 1) / 10\<bar> \<le> (of_nat n + 1)\<^sup>2 / (10 * 2 ^ 53)"
proof (induction n)
  case 0
  have "\<bar>3602879701896397 / 36028797018963968 - (of_nat 0 + 1) / 10\<bar>
      \<le> (of_nat 0 + 1)\<^sup>2 / (10 * 2 ^ 53 :: rat)"
    by simp
  then show ?case
    unfolding tick_def funpow_0 by blast
next
  case (Suc n)
  define N :: rat where "N = of_nat n + 1"
  define U :: rat where "U = 2 ^ 53"
  define t :: rat where "t = 3602879701896397 / 36028797018963968"
  have U: "0 < U"
    by (simp add: U_def)
  have tick: "tick = Fin t"
    by (simp add: tick_def t_def)
  have t: "\<bar>t - 1 / 10\<bar> = 1 / (20 * U)" "9 / 100 \<le> t" "t \<le> 11 / 100"
    by (simp_all add: t_def U_def)
  from Suc.prems have "n < 2 ^ 20"
    by simp
  from Suc.IH [OF this] obtain v
    where v: "((\<lambda>q. f64_add q tick) ^^ n) tick = Fin v"
      and dv: "\<bar>v - N / 10\<bar> \<le> N\<^sup>2 / (10 * U)"
    unfolding N_def U_def by blast
  have N1: "1 \<le> N"
    by (simp add: N_def)
  have "Suc n \<le> 2 ^ 20"
    using Suc.prems by simp
  then have "(of_nat (Suc n) :: rat) \<le> of_nat (2 ^ 20)"
    by (simp only: of_nat_le_iff)
  then have N2: "N \<le> 2 ^ 20"
    by (simp add: N_def)
  have "N\<^sup>2 \<le> (2 ^ 20)\<^sup>2"
    using N1 N2 by (intro power_mono) simp_all
  then have "N\<^sup>2 / (10 * U) \<le> (2 ^ 20)\<^sup>2 / (10 * U)"
    using U by (intro divide_right_mono) simp_all
  also have "\<dots> = 1 / 81920"
    by (simp add: U_def)
  finally have dv': "\<bar>v - N / 10\<bar> \<le> 1 / 81920"
    using dv by simp
  define x where "x = v + t"
  have x_lo: "1 / 8 \<le> x"
    using dv' N1 t(2) unfolding x_def by linarith
  have split: "(N + 1) / 10 = N / 10 + 1 / 10"
    by (simp add: add_divide_distrib)
  have x_hi': "x \<le> (N + 1) / 10 + 1 / 20"
    using dv' t(3) unfolding x_def split by linarith
  have "N \<le> 1048576"
    using N2 by simp
  then have "x \<le> 2097152"
    using x_hi' unfolding split by linarith
  then have x_hi: "x \<le> 2 ^ 21"
    by simp
  from round64_relative_error [OF x_lo x_hi] obtain y
    where y: "round64 x = Fin y" and dy: "\<bar>y - x\<bar> \<le> x / 2 ^ 53"
    by blast
  have "((\<lambda>q. f64_add q tick) ^^ Suc n) tick =
      f64_add (((\<lambda>q. f64_add q tick) ^^ n) tick) tick"
    by simp
  also have "\<dots> = f64_add (Fin v) (Fin t)"
    unfolding v by (simp add: tick)
  also have "\<dots> = Fin y"
    using y by (simp add: x_def)
  finally have step: "((\<lambda>q. f64_add q tick) ^^ Suc n) tick = Fin y" .
  have "\<bar>y - x\<bar> \<le> x / U"
    using dy by (simp add: U_def)
  also have "\<dots> \<le> ((N + 1) / 10 + 1 / 20) / U"
    using x_hi' U by (intro divide_right_mono) simp_all
  finally have dy': "\<bar>y - x\<bar> \<le> ((N + 1) / 10 + 1 / 20) / U" .
  have "y - (N + 1) / 10 = (y - x) + (v - N / 10) + (t - 1 / 10)"
    by (simp add: x_def split)
  then have "\<bar>y - (N + 1) / 10\<bar> \<le> \<bar>y - x\<bar> + \<bar>v - N / 10\<bar> + \<bar>t - 1 / 10\<bar>"
    by linarith
  also have "\<dots> \<le> ((N + 1) / 10 + 1 / 20) / U + N\<^sup>2 / (10 * U) + 1 / (20 * U)"
    using dy' dv t(1) by (intro add_mono) simp_all
  also have "\<dots> = (N\<^sup>2 + N + 2) / (10 * U)"
    using U by (simp add: field_simps)
  also have "\<dots> \<le> (N + 1)\<^sup>2 / (10 * U)"
    using U N1 by (intro divide_right_mono) (simp_all add: power2_eq_square algebra_simps)
  finally have "\<bar>y - (N + 1) / 10\<bar> \<le> (N + 1)\<^sup>2 / (10 * U)" .
  then have "\<bar>y - (of_nat (Suc n) + 1) / 10\<bar> \<le> (of_nat (Suc n) + 1)\<^sup>2 / (10 * 2 ^ 53)"
    by (simp add: N_def U_def add.commute)
  with step show ?case
    by blast
qed

subsection \<open>Accumulated pulse time\<close>

text \<open>Evaluation of a rounding whose binary exponent is given.\<close>

lemma floor_rat_numeral:
  "\<lfloor>(numeral a :: rat) / numeral b\<rfloor> = numeral a div numeral b"
  by (metis floor_divide_of_int_eq of_int_numeral)

lemma round64_eval:
  assumes "2 ^ 52 \<le> x * 2 ^ k" and "x * 2 ^ k < 2 ^ 53" and "k \<le> 1074"
  shows "round64 x = Fin (of_int (round_half_even (x * 2 ^ k)) / 2 ^ k)"
proof -
  have p: "(2::rat) powi (- int k) = 1 / 2 ^ k"
    by (simp add: power_int_minus divide_inverse)
  have "(2::rat) powi (- int k + 52) = 2 powi (- int k) * 2 powi 52"
    by (rule power_int_add) simp
  also have "\<dots> = 2 ^ 52 / 2 ^ k"
    unfolding p by simp
  finally have lo: "2 powi (- int k + 52) \<le> x"
    using assms(1) by (simp only: pos_divide_le_eq zero_less_power zero_less_numeral)
  have "(2::rat) powi (- int k + 53) = 2 powi (- int k) * 2 powi 53"
    by (rule power_int_add) simp
  also have "\<dots> = 2 ^ 53 / 2 ^ k"
    unfolding p by simp
  finally have hi: "x < 2 powi (- int k + 53)"
    using assms(2) by (simp only: pos_less_divide_eq zero_less_power zero_less_numeral)
  have e: "- 1074 \<le> - int k" "- int k \<le> 970"
    using assms(3) by simp_all
  from round64_normal(1) [OF lo hi e] show ?thesis
    by (simp add: p)
qed

text \<open>The value of \<open>tick\<close> is one tenth rounded to float64.\<close>

lemma tick_nearest: "round64 (1 / 10) = tick"
  unfolding tick_def
  by (subst round64_eval [where k = 56])
    (simp_all add: round_half_even_def Let_def floor_rat_numeral)

lemma add_tick_1: "f64_add tick tick = Fin (3602879701896397 / 18014398509481984)"
  unfolding tick_def f64_add.simps
  by (subst round64_eval [where k = 55]) (simp_all add: round_half_even_def Let_def floor_rat_numeral)

lemma add_tick_2: "f64_add (Fin (3602879701896397 / 18014398509481984)) tick = Fin (1351079888211149 / 4503599627370496)"
  unfolding tick_def f64_add.simps
  by (subst round64_eval [where k = 54]) (simp_all add: round_half_even_def Let_def floor_rat_numeral)

lemma add_tick_3: "f64_add (Fin (1351079888211149 / 4503599627370496)) tick = Fin (3602879701896397 / 9007199254740992)"
  unfolding tick_def f64_add.simps
  by (subst round64_eval [where k = 54]) (simp_all add: round_half_even_def Let_def floor_rat_numeral)

lemma add_tick_4: "f64_add (Fin (3602879701896397 / 9007199254740992)) tick = Fin (1 / 2)"
  unfolding tick_def f64_add.simps
  by (subst round64_eval [where k = 53]) (simp_all add: round_half_even_def Let_def floor_rat_numeral)

lemma add_tick_5: "f64_add (Fin (1 / 2)) tick = Fin (5404319552844595 / 9007199254740992)"
  unfolding tick_def f64_add.simps
  by (subst round64_eval [where k = 53]) (simp_all add: round_half_even_def Let_def floor_rat_numeral)

lemma add_tick_6: "f64_add (Fin (5404319552844595 / 9007199254740992)) tick = Fin (3152519739159347 / 4503599627370496)"
  unfolding tick_def f64_add.simps
  by (subst round64_eval [where k = 53]) (simp_all add: round_half_even_def Let_def floor_rat_numeral)

lemma add_tick_7: "f64_add (Fin (3152519739159347 / 4503599627370496)) tick = Fin (7205759403792793 / 9007199254740992)"
  unfolding tick_def f64_add.simps
  by (subst round64_eval [where k = 53]) (simp_all add: round_half_even_def Let_def floor_rat_numeral)

lemma add_tick_8: "f64_add (Fin (7205759403792793 / 9007199254740992)) tick = Fin (2026619832316723 / 2251799813685248)"
  unfolding tick_def f64_add.simps
  by (subst round64_eval [where k = 53]) (simp_all add: round_half_even_def Let_def floor_rat_numeral)

lemma add_tick_9: "f64_add (Fin (2026619832316723 / 2251799813685248)) tick = Fin (9007199254740991 / 9007199254740992)"
  unfolding tick_def f64_add.simps
  by (subst round64_eval [where k = 53]) (simp_all add: round_half_even_def Let_def floor_rat_numeral)

lemma nine_ticks:
  "measure_pulse [High, High, High, High, High, High, High, High, High, Low] tick =
     Some (Fin (9007199254740991 / 9007199254740992), [])"
  by (simp add: add_tick_1 add_tick_2 add_tick_3 add_tick_4 add_tick_5 add_tick_6 add_tick_7 add_tick_8 add_tick_9)

text \<open>The closed form of the specification at nine ticks, computed in float64.\<close>

lemma nine_tenths: "f64_mul tick (Fin 9) = Fin (8106479329266893 / 9007199254740992)"
  unfolding tick_def f64_mul.simps
  by (subst round64_eval [where k = 53]) (simp_all add: round_half_even_def Let_def floor_rat_numeral)

lemma tenth_plus_nine_tenths: "f64_add tick (f64_mul tick (Fin 9)) = Fin 1"
  unfolding nine_tenths unfolding tick_def f64_add.simps
  by (subst round64_eval [where k = 52]) (simp_all add: round_half_even_def Let_def floor_rat_numeral)

text \<open>
  Claim C4, as amended. When the pin reads high at exactly \<open>T\<close> polls and then low, the
  pulse time at classification is the float64 obtained from the initial \<^verbatim>\<open>0.1\<close> by \<open>T\<close>
  float64 additions of \<^verbatim>\<open>0.1\<close>. For \<open>T\<close> below \<open>2 ^ 20\<close> it is finite and differs from
  \<open>0.1 + 0.1 * T\<close> by at most \<open>(T + 1)\<^sup>2 / (10 * 2 ^ 53)\<close>, the accumulated
  rounding error.
\<close>

theorem measure_pulse_accumulates:
  "measure_pulse (replicate T High @ Low # pins) tick =
     Some (((\<lambda>q. f64_add q tick) ^^ T) tick, pins)
   \<and> (T < 2 ^ 20 \<longrightarrow>
        (\<exists>v. measure_pulse (replicate T High @ Low # pins) tick = Some (Fin v, pins)
           \<and> \<bar>v - (1 / 10 + 1 / 10 * of_nat T)\<bar> \<le> (of_nat T + 1)\<^sup>2 / (10 * 2 ^ 53)))"
proof (intro conjI impI)
  show "measure_pulse (replicate T High @ Low # pins) tick =
      Some (((\<lambda>q. f64_add q tick) ^^ T) tick, pins)"
    by (rule measure_pulse_replicate)
next
  assume "T < 2 ^ 20"
  from tick_accumulate_bound [OF this] obtain v
    where v: "((\<lambda>q. f64_add q tick) ^^ T) tick = Fin v"
      and dv: "\<bar>v - (of_nat T + 1) / 10\<bar> \<le> (of_nat T + 1)\<^sup>2 / (10 * 2 ^ 53)"
    by blast
  have "(of_nat T + 1) / 10 = (1 / 10 + 1 / 10 * of_nat T :: rat)"
    by (simp add: add_divide_distrib)
  with dv have "\<bar>v - (1 / 10 + 1 / 10 * of_nat T)\<bar> \<le> (of_nat T + 1)\<^sup>2 / (10 * 2 ^ 53)"
    by (simp only:)
  moreover have "measure_pulse (replicate T High @ Low # pins) tick = Some (Fin v, pins)"
    by (simp only: measure_pulse_replicate v)
  ultimately show "\<exists>v. measure_pulse (replicate T High @ Low # pins) tick = Some (Fin v, pins)
      \<and> \<bar>v - (1 / 10 + 1 / 10 * of_nat T)\<bar> \<le> (of_nat T + 1)\<^sup>2 / (10 * 2 ^ 53)"
    by blast
qed

theorem measure_pulse_accumulates_witness:
  "(9::nat) < 2 ^ 20
   \<and> (\<exists>v. measure_pulse (replicate 9 High @ [Low]) tick = Some (Fin v, [])
          \<and> \<bar>v - (1 / 10 + 1 / 10 * 9)\<bar> \<le> 100 / (10 * 2 ^ 53))"
  using measure_pulse_accumulates [of 9 "[]", THEN conjunct2] by simp

text \<open>
  The equality of claim C4 fails at nine ticks: the loop accumulates
  \<open>1 - 2 ^ - 53\<close> (printed \<^verbatim>\<open>0.9999999999999999\<close>), while \<open>0.1 + 0.1 * 9\<close> is 1, as a
  rational and as the float64 expression alike.
\<close>

theorem pulse_nine_ticks_counterexample:
  "measure_pulse [High, High, High, High, High, High, High, High, High, Low] tick =
     Some (Fin (9007199254740991 / 9007199254740992), [])
   \<and> Fin (9007199254740991 / 9007199254740992) \<noteq> Fin (1 / 10 + 1 / 10 * 9)
   \<and> Fin (9007199254740991 / 9007199254740992) \<noteq> f64_add tick (f64_mul tick (Fin 9))"
  by (intro conjI) (rule nine_ticks, simp, simp add: tenth_plus_nine_tenths)

end
